theory Spec2Isabelle
  imports Complex_Main "HOL-Library.Sublist" "HOL-Library.Multiset"
begin

section \<open>Python string operations used by the memory store\<close>

text \<open>
  Python \<open>str\<close> values are modelled as \<open>string\<close> (a list of 8-bit characters; text outside
  ASCII is its UTF-8 encoding). Case mapping, digits and whitespace are modelled for ASCII,
  which is where \<open>str.lower\<close>, \<open>str.isdigit\<close>, \<open>str.split\<close> and \<open>str.strip\<close> act on the
  URLs, titles and commands handled here; a byte outside ASCII is left unchanged by
  \<open>py_lower\<close>, and is neither a digit nor whitespace.
\<close>

definition lower_char :: "char \<Rightarrow> char" where
  "lower_char c =
     (case map_of (zip ''ABCDEFGHIJKLMNOPQRSTUVWXYZ'' ''abcdefghijklmnopqrstuvwxyz'') c of
        Some l \<Rightarrow> l
      | None \<Rightarrow> c)"

text \<open>\<open>s.lower()\<close>\<close>

definition py_lower :: "string \<Rightarrow> string" where
  "py_lower s = map lower_char s"

text \<open>
  The characters for which \<open>str.isspace\<close> holds, in ASCII: space, tab, newline, vertical tab,
  form feed, carriage return and the four separators \<open>0x1c\<close> to \<open>0x1f\<close>.
\<close>

definition is_space :: "char \<Rightarrow> bool" where
  "is_space c \<longleftrightarrow>
     c \<in> set [CHR '' '', CHR 0x09, CHR 0x0A, CHR 0x0B, CHR 0x0C, CHR 0x0D,
               CHR 0x1C, CHR 0x1D, CHR 0x1E, CHR 0x1F]"

definition is_digit :: "char \<Rightarrow> bool" where
  "is_digit c \<longleftrightarrow> c \<in> set ''0123456789''"

text \<open>\<open>s.isdigit()\<close>: every character is a digit and there is at least one.\<close>

definition isdigit :: "string \<Rightarrow> bool" where
  "isdigit s \<longleftrightarrow> s \<noteq> [] \<and> list_all is_digit s"

text \<open>\<open>s.strip(c)\<close> for a single character \<open>c\<close>, and \<open>s.strip()\<close>.\<close>

definition strip_char :: "char \<Rightarrow> string \<Rightarrow> string" where
  "strip_char c s = rev (dropWhile (\<lambda>x. x = c) (rev (dropWhile (\<lambda>x. x = c) s)))"

definition py_strip :: "string \<Rightarrow> string" where
  "py_strip s = rev (dropWhile is_space (rev (dropWhile is_space s)))"

text \<open>\<open>s.split(c)\<close> for a single character separator: never empty, \<open>''''.split(c) = ['''']\<close>.\<close>

fun split_on :: "char \<Rightarrow> string \<Rightarrow> string list" where
  "split_on c [] = [[]]"
| "split_on c (x # xs) =
     (if x = c then [] # split_on c xs
      else (case split_on c xs of
              [] \<Rightarrow> [[x]]
            | w # ws \<Rightarrow> (x # w) # ws))"

text \<open>\<open>s.split()\<close>: the maximal runs of non-whitespace characters, in order.\<close>

fun split_ws_acc :: "string \<Rightarrow> string \<Rightarrow> string list" where
  "split_ws_acc cur [] = (if cur = [] then [] else [rev cur])"
| "split_ws_acc cur (x # xs) =
     (if is_space x
      then (if cur = [] then split_ws_acc [] xs else rev cur # split_ws_acc [] xs)
      else split_ws_acc (x # cur) xs)"

definition py_split :: "string \<Rightarrow> string list" where
  "py_split s = split_ws_acc [] s"

text \<open>\<open>a in b\<close> on strings: \<open>a\<close> occurs in \<open>b\<close> as a contiguous substring.\<close>

fun py_in :: "string \<Rightarrow> string \<Rightarrow> bool" where
  "py_in a [] \<longleftrightarrow> a = []"
| "py_in a (y # ys) \<longleftrightarrow> prefix a (y # ys) \<or> py_in a ys"

section \<open>Storage models (\<open>storage/models.py\<close>)\<close>

datatype PageType =
  LOGIN | HOME | LIST | DETAIL | FORM | SEARCH | SETTINGS | ERROR | AUTH | DASHBOARD | UNKNOWN

text \<open>
  A \<open>Page\<close> as \<open>_row_to_page\<close> builds it from a row of table \<open>pages\<close>. The two timestamps
  are not read by any operation modelled here and are left out.
\<close>

record Page =
  page_id :: "int option"
  page_site_id :: int
  url_pattern :: string
  title_pattern :: string
  page_type :: PageType
  page_semantic_description :: string
  key_features :: string
  sample_url :: string
  visit_count :: int

section \<open>URL pattern matching (\<open>SQLiteDatabase._url_matches_pattern\<close>)\<close>

text \<open>
  \<open>urlparse(u).path\<close> is a function of the Python standard library; the matcher takes it as
  the parameter \<open>path_of\<close>. \<open>path_parts path_of u\<close> is
  \<open>urlparse(u).path.strip('/').split('/')\<close>.
\<close>

definition path_parts :: "(string \<Rightarrow> string) \<Rightarrow> string \<Rightarrow> string list" where
  "path_parts path_of u = split_on CHR ''/'' (strip_char CHR ''/'' (path_of u))"

text \<open>
  The body of the \<open>for u, p in zip(url_parts, pattern_parts)\<close> loop: a pair passes when the
  pattern segment is \<open>*\<close> or equals the URL segment, or when both are digit strings; the
  first pair that does not pass returns \<open>False\<close>.
\<close>

definition segment_ok :: "string \<Rightarrow> string \<Rightarrow> bool" where
  "segment_ok u p \<longleftrightarrow> p = ''*'' \<or> p = u \<or> (isdigit u \<and> isdigit p)"

fun segments_match :: "string list \<Rightarrow> string list \<Rightarrow> bool" where
  "segments_match (u # us) (p # ps) =
     (if p = ''*'' \<or> p = u then segments_match us ps
      else if isdigit u \<and> isdigit p then segments_match us ps
      else False)"
| "segments_match _ _ = True"

definition url_matches_pattern :: "(string \<Rightarrow> string) \<Rightarrow> string \<Rightarrow> string \<Rightarrow> bool" where
  "url_matches_pattern path_of url pattern =
     (if pattern = [] then False
      else let url_parts = path_parts path_of url;
               pattern_parts = path_parts path_of pattern
           in if length url_parts \<noteq> length pattern_parts then False
              else segments_match url_parts pattern_parts)"

section \<open>\<open>find_similar_page\<close> in the two backends\<close>

text \<open>
  Table \<open>pages\<close> is the list of its rows in the order the cursor yields them;
  \<open>SELECT * FROM pages WHERE site_id = ?\<close> keeps the rows of the site, in that order.
\<close>

definition select_pages_by_site :: "Page list \<Rightarrow> int \<Rightarrow> Page list" where
  "select_pages_by_site pages sid = filter (\<lambda>p. page_site_id p = sid) pages"

text \<open>
  \<open>title and page.title_pattern and title.lower() in page.title_pattern.lower()\<close>
\<close>

definition title_matches :: "string \<Rightarrow> Page \<Rightarrow> bool" where
  "title_matches title page \<longleftrightarrow>
     title \<noteq> [] \<and> title_pattern page \<noteq> [] \<and>
     py_in (py_lower title) (py_lower (title_pattern page))"

text \<open>The row loop of \<open>SQLiteDatabase.find_similar_page\<close>.\<close>

fun sqlite_scan :: "(string \<Rightarrow> string) \<Rightarrow> string \<Rightarrow> string \<Rightarrow> Page list \<Rightarrow> Page option" where
  "sqlite_scan path_of url title [] = None"
| "sqlite_scan path_of url title (page # rows) =
     (if url_matches_pattern path_of url (url_pattern page) then Some page
      else if title_matches title page then Some page
      else sqlite_scan path_of url title rows)"

definition sqlite_find_similar_page ::
  "(string \<Rightarrow> string) \<Rightarrow> Page list \<Rightarrow> int \<Rightarrow> string \<Rightarrow> string \<Rightarrow> Page option" where
  "sqlite_find_similar_page path_of pages sid url title =
     sqlite_scan path_of url title (select_pages_by_site pages sid)"

text \<open>The row loop of \<open>MySQLDatabase.find_similar_page\<close>: the title test only.\<close>

fun mysql_scan :: "string \<Rightarrow> Page list \<Rightarrow> Page option" where
  "mysql_scan title [] = None"
| "mysql_scan title (page # rows) =
     (if title_matches title page then Some page else mysql_scan title rows)"

definition mysql_find_similar_page :: "Page list \<Rightarrow> int \<Rightarrow> string \<Rightarrow> string \<Rightarrow> Page option" where
  "mysql_find_similar_page pages sid url title =
     mysql_scan title (select_pages_by_site pages sid)"

text \<open>
  A path function for the examples: the path of a URL of the shape
  \<open>scheme://netloc/path\<close>, optionally followed by \<open>?query\<close> or \<open>#fragment\<close>, as \<open>urlparse\<close>
  returns it. A string without \<open>://\<close> is taken to be a path already.
\<close>

fun after_scheme :: "string \<Rightarrow> string option" where
  "after_scheme [] = None"
| "after_scheme (c # cs) =
     (if prefix ''://'' (c # cs) then Some (drop 3 (c # cs)) else after_scheme cs)"

definition plain_url_path :: "string \<Rightarrow> string" where
  "plain_url_path u =
     (let rest = (case after_scheme u of
                    None \<Rightarrow> u
                  | Some r \<Rightarrow> dropWhile (\<lambda>c. c \<notin> set ''/?#'') r)
      in takeWhile (\<lambda>c. c \<notin> set ''?#'') rest)"

section \<open>\<open>find_task_path\<close>\<close>

record TaskPath =
  tp_id :: "int option"
  tp_site_id :: int
  task_description :: string
  task_keywords :: string
  action_sequence :: string
  start_page_id :: "int option"
  end_page_id :: "int option"
  success_count :: int
  fail_count :: int

text \<open>\<open>SELECT * FROM task_paths WHERE site_id = ?\<close>, rows in cursor order.\<close>

definition select_task_paths_by_site :: "TaskPath list \<Rightarrow> int \<Rightarrow> TaskPath list" where
  "select_task_paths_by_site task_paths sid = filter (\<lambda>tp. tp_site_id tp = sid) task_paths"

text \<open>\<open>sum(1 for kw in keywords if kw in task_path.task_keywords.lower())\<close>\<close>

definition keyword_score :: "string list \<Rightarrow> TaskPath \<Rightarrow> nat" where
  "keyword_score keywords task_path =
     length (filter (\<lambda>kw. py_in kw (py_lower (task_keywords task_path))) keywords)"

text \<open>
  The row loop, with the two loop variables \<open>best_match\<close> and \<open>best_score\<close> as accumulators:
  a row replaces the best match only when it scores strictly higher.
\<close>

fun best_loop ::
  "string list \<Rightarrow> TaskPath option \<Rightarrow> nat \<Rightarrow> TaskPath list \<Rightarrow> TaskPath option \<times> nat" where
  "best_loop keywords best_match best_score [] = (best_match, best_score)"
| "best_loop keywords best_match best_score (task_path # rows) =
     (let score = keyword_score keywords task_path
      in if score > best_score then best_loop keywords (Some task_path) score rows
         else best_loop keywords best_match best_score rows)"

definition find_task_path :: "TaskPath list \<Rightarrow> int \<Rightarrow> string \<Rightarrow> TaskPath option" where
  "find_task_path task_paths sid description =
     (let keywords = py_split (py_lower description);
          (best_match, best_score) =
             best_loop keywords None 0 (select_task_paths_by_site task_paths sid)
      in if best_score > 0 then best_match else None)"

section \<open>\<open>get_or_create_site\<close> (\<open>SQLiteDatabase\<close>)\<close>

text \<open>
  A row of table \<open>sites\<close>. Points in time are natural numbers; the two timestamp columns
  may be \<open>NULL\<close>.
\<close>

record site_row =
  row_id :: int
  row_domain :: string
  row_name :: string
  row_description :: string
  row_created_at :: "nat option"
  row_updated_at :: "nat option"

record Site =
  site_id :: "int option"
  site_domain :: string
  site_name :: string
  site_description :: string
  created_at :: nat
  updated_at :: nat

text \<open>
  The part of the database the operation touches: the rows of \<open>sites\<close> in cursor order, and
  the largest row id the table has ever held (\<open>AUTOINCREMENT\<close>: a new row gets the next one,
  which \<open>cursor.lastrowid\<close> then reports).
\<close>

record sites_table =
  site_rows :: "site_row list"
  site_seq :: int

text \<open>
  \<open>SELECT * FROM sites WHERE domain = ?\<close> followed by \<open>fetchone()\<close> is the first row with
  that domain. When there is one, the database is left as it is; otherwise a row is
  inserted, named \<open>name or domain\<close>. \<open>now\<close> is the clock reading of the call.
\<close>

definition get_or_create_site ::
  "sites_table \<Rightarrow> string \<Rightarrow> string \<Rightarrow> string \<Rightarrow> nat \<Rightarrow> sites_table \<times> Site" where
  "get_or_create_site db domain name description now =
     (case find (\<lambda>r. row_domain r = domain) (site_rows db) of
        Some row \<Rightarrow>
          (db,
           \<lparr>site_id = Some (row_id row), site_domain = row_domain row, site_name = row_name row,
            site_description = row_description row,
            created_at = (case row_created_at row of Some t \<Rightarrow> t | None \<Rightarrow> now),
            updated_at = (case row_updated_at row of Some t \<Rightarrow> t | None \<Rightarrow> now)\<rparr>)
      | None \<Rightarrow>
          (let lastrowid = site_seq db + 1;
               new_row = \<lparr>row_id = lastrowid, row_domain = domain,
                          row_name = (if name = [] then domain else name),
                          row_description = description,
                          row_created_at = Some now, row_updated_at = Some now\<rparr>
           in (db\<lparr>site_rows := site_rows db @ [new_row], site_seq := lastrowid\<rparr>,
               \<lparr>site_id = Some lastrowid, site_domain = domain,
                site_name = (if name = [] then domain else name),
                site_description = description, created_at = now, updated_at = now\<rparr>)))"

section \<open>Ordering of \<open>pending_items\<close> (\<open>explorer/explorer.py\<close>)\<close>

text \<open>
  \<open>item_type\<close> is computed by the explorer as \<open>"crud" if is_crud else ("nav" if is_nav else
  "action")\<close>; \<open>crud_type\<close> is the string the model's answer carries.
\<close>

datatype ItemType = ITEM_NAV | ITEM_CRUD | ITEM_ACTION

record pending_item =
  item_name :: string
  item_xpath :: string
  item_priority :: int
  item_element_id :: "int option"
  item_source_page_id :: "int option"
  item_source_url :: string
  item_type :: ItemType
  crud_type :: string
  item_text :: string

text \<open>
  \<open>list.sort(key=k, reverse=True)\<close>: CPython reverses the list, sorts it with its stable
  ascending sort and reverses the result, so that items with equal keys keep their order.
\<close>

definition sort_reverse :: "('a \<Rightarrow> int) \<Rightarrow> 'a list \<Rightarrow> 'a list" where
  "sort_reverse k xs = rev (sort_key k (rev xs))"

text \<open>The key of the sort that ends \<open>_analyze_and_collect_items\<close>.\<close>

definition collect_key :: "pending_item \<Rightarrow> int" where
  "collect_key x =
     (if item_type x = ITEM_NAV then 10
      else if crud_type x = ''create'' then 9
      else if crud_type x \<in> {''read'', ''update''} then 8
      else if crud_type x = ''delete'' then 7
      else item_priority x)"

definition sort_after_collect :: "pending_item list \<Rightarrow> pending_item list" where
  "sort_after_collect pending_items = sort_reverse collect_key pending_items"

text \<open>
  The sort in \<open>_analyze_after_click\<close>, run when the click brought new items:
  \<open>key=lambda x: x["priority"]\<close>.
\<close>

definition sort_after_click :: "pending_item list \<Rightarrow> pending_item list" where
  "sort_after_click pending_items = sort_reverse item_priority pending_items"

text \<open>The four items of the ordering example.\<close>

definition ex_action :: pending_item where
  "ex_action = \<lparr>item_name = ''Export'', item_xpath = ''//button[1]'', item_priority = 8,
     item_element_id = Some 1, item_source_page_id = Some 1,
     item_source_url = ''http://a.io/home'', item_type = ITEM_ACTION, crud_type = ''none'',
     item_text = ''Export''\<rparr>"

definition ex_nav :: pending_item where
  "ex_nav = \<lparr>item_name = ''Reports'', item_xpath = ''//a[1]'', item_priority = 1,
     item_element_id = Some 2, item_source_page_id = Some 1,
     item_source_url = ''http://a.io/home'', item_type = ITEM_NAV, crud_type = ''none'',
     item_text = ''Reports''\<rparr>"

definition ex_delete :: pending_item where
  "ex_delete = \<lparr>item_name = ''Delete Task'', item_xpath = ''//button[2]'', item_priority = 9,
     item_element_id = Some 3, item_source_page_id = Some 1,
     item_source_url = ''http://a.io/home'', item_type = ITEM_CRUD, crud_type = ''delete'',
     item_text = ''Delete''\<rparr>"

definition ex_create :: pending_item where
  "ex_create = \<lparr>item_name = ''New Task'', item_xpath = ''//button[3]'', item_priority = 2,
     item_element_id = Some 4, item_source_page_id = Some 1,
     item_source_url = ''http://a.io/home'', item_type = ITEM_CRUD, crud_type = ''create'',
     item_text = ''New Task''\<rparr>"

section \<open>Example rows\<close>

definition ex_home :: Page where
  "ex_home = \<lparr>page_id = Some 1, page_site_id = 1, url_pattern = ''http://a.io/home'',
     title_pattern = ''Home - Orders'', page_type = HOME, page_semantic_description = ''Start'',
     key_features = ''[]'', sample_url = ''http://a.io/home'', visit_count = 1\<rparr>"

definition ex_order :: Page where
  "ex_order = \<lparr>page_id = Some 2, page_site_id = 1, url_pattern = ''http://a.io/order/123'',
     title_pattern = ''Order detail'', page_type = DETAIL,
     page_semantic_description = ''One order'', key_features = ''[]'',
     sample_url = ''http://a.io/order/123?tab=2'', visit_count = 1\<rparr>"

definition ex_tp_create :: TaskPath where
  "ex_tp_create = \<lparr>tp_id = Some 1, tp_site_id = 1, task_description = ''Create new order'',
     task_keywords = ''Create new order'', action_sequence = ''[]'', start_page_id = None,
     end_page_id = None, success_count = 1, fail_count = 0\<rparr>"

definition ex_tp_delete :: TaskPath where
  "ex_tp_delete = \<lparr>tp_id = Some 2, tp_site_id = 1, task_description = ''Delete order'',
     task_keywords = ''Delete order'', action_sequence = ''[]'', start_page_id = None,
     end_page_id = None, success_count = 1, fail_count = 0\<rparr>"

definition ex_tp_other_site :: TaskPath where
  "ex_tp_other_site = \<lparr>tp_id = Some 3, tp_site_id = 2,
     task_description = ''Create order now'', task_keywords = ''Create order now'',
     action_sequence = ''[]'', start_page_id = None, end_page_id = None, success_count = 1,
     fail_count = 0\<rparr>"

definition ex_sites :: sites_table where
  "ex_sites = \<lparr>site_rows = [\<lparr>row_id = 1, row_domain = ''a.io'', row_name = ''A'',
       row_description = ''shop'', row_created_at = Some 5, row_updated_at = Some 5\<rparr>],
     site_seq = 1\<rparr>"

section \<open>Model responses: JSON values and exceptions\<close>

text \<open>
  The exceptions that matter to the handlers modelled here. \<open>BaseExceptionOnly\<close> stands for
  an exception outside the class \<open>Exception\<close> (a cancellation, a keyboard interrupt), which
  \<open>except Exception\<close> does not catch.
\<close>

datatype py_exception =
  JSONDecodeError | TypeError | AttributeError | KeyError | OtherException | BaseExceptionOnly

text \<open>
  What \<open>json.loads\<close> returns. A number carries its exact value: a Python \<open>int\<close>, or the
  rational value of the \<open>float\<close> (an IEEE double) the token was read as; comparing two
  such numbers in Python compares these values.
\<close>

datatype json =
  JNull | JBool bool | JNum rat | JNaN | JInfinity | JNegInfinity
  | JStr string | JArr "json list" | JObj "(string \<times> json) list"

text \<open>\<open>re.search(r'\{[\s\S]*\}', response)\<close>: the leftmost match starts at the first
  \<open>{\<close> that has a \<open>}\<close> somewhere after it, and the greedy star extends it to the last
  \<open>}\<close> of the response. The result is \<open>json_match.group()\<close>, or \<open>None\<close> without a match.\<close>

definition search_braces :: "string \<Rightarrow> string option" where
  "search_braces response =
     (let from_open = dropWhile (\<lambda>c. c \<noteq> CHR ''{'') response;
          matched = rev (dropWhile (\<lambda>c. c \<noteq> CHR ''}'') (rev from_open))
      in if matched = [] then None else Some matched)"

text \<open>
  The body of the \<open>try\<close> block shared by \<open>analyze_page\<close> and \<open>plan_task\<close>: the call of
  the model has raised or returned a string; a non-empty response with a match is handed
  to \<open>json.loads\<close> (the parameter \<open>json_loads\<close>, with \<open>None\<close> for \<open>JSONDecodeError\<close>).
  \<open>Inr None\<close> means that the block ended without \<open>return\<close>.
\<close>

definition try_parse ::
  "(string \<Rightarrow> json option) \<Rightarrow> py_exception + string \<Rightarrow> py_exception + json option" where
  "try_parse json_loads llm_result =
     (case llm_result of
        Inl e \<Rightarrow> Inl e
      | Inr response \<Rightarrow>
          if response \<noteq> [] then
            (case search_braces response of
               Some matched \<Rightarrow>
                 (case json_loads matched of
                    Some v \<Rightarrow> Inr (Some v)
                  | None \<Rightarrow> Inl JSONDecodeError)
             | None \<Rightarrow> Inr None)
          else Inr None)"

text \<open>
  The two handlers \<open>except json.JSONDecodeError: pass\<close> and \<open>except Exception as e:
  print(...)\<close>, followed by \<open>return\<close> of the default: an exception of class \<open>Exception\<close>
  ends in the default, any other one propagates.
\<close>

definition with_default :: "json \<Rightarrow> py_exception + json option \<Rightarrow> py_exception + json" where
  "with_default dflt r =
     (case r of
        Inr (Some v) \<Rightarrow> Inr v
      | Inr None \<Rightarrow> Inr dflt
      | Inl JSONDecodeError \<Rightarrow> Inr dflt
      | Inl BaseExceptionOnly \<Rightarrow> Inl BaseExceptionOnly
      | Inl _ \<Rightarrow> Inr dflt)"

text \<open>The two message strings of the defaults, as UTF-8.\<close>

definition msg_page_not_analyzable :: string where
  "msg_page_not_analyzable =
     [CHR 0xE6, CHR 0x97, CHR 0xA0, CHR 0xE6, CHR 0xB3, CHR 0x95, CHR 0xE5, CHR 0x88, CHR 0x86,
      CHR 0xE6, CHR 0x9E, CHR 0x90, CHR 0xE7, CHR 0x9A, CHR 0x84, CHR 0xE9, CHR 0xA1, CHR 0xB5,
      CHR 0xE9, CHR 0x9D, CHR 0xA2]"

definition msg_plan_not_parsed :: string where
  "msg_plan_not_parsed =
     [CHR 0xE6, CHR 0x97, CHR 0xA0, CHR 0xE6, CHR 0xB3, CHR 0x95, CHR 0xE8, CHR 0xA7, CHR 0xA3,
      CHR 0xE6, CHR 0x9E, CHR 0x90, CHR 0xE8, CHR 0xA7, CHR 0x84, CHR 0xE5, CHR 0x88, CHR 0x92,
      CHR 0xE7, CHR 0xBB, CHR 0x93, CHR 0xE6, CHR 0x9E, CHR 0x9C]"

definition analyze_page_default :: json where
  "analyze_page_default =
     JObj [(''page_type'', JStr ''unknown''),
           (''page_description'', JStr msg_page_not_analyzable),
           (''key_features'', JArr []),
           (''has_sidebar_nav'', JBool False),
           (''sidebar_nav_items'', JArr []),
           (''important_elements'', JArr []),
           (''suggested_explorations'', JArr [])]"

definition plan_task_default :: json where
  "plan_task_default =
     JObj [(''can_plan'', JBool False),
           (''confidence'', JNum 0),
           (''plan'', JArr []),
           (''unknown_steps'', JArr [JStr msg_plan_not_parsed])]"

text \<open>
  \<open>PageAnalyzer.analyze_page\<close>, from the outcome of \<open>llm.analyze_with_vision\<close> on, and
  \<open>MemoryBasedPlanner.plan_task\<close>, from the outcome of \<open>llm.chat\<close> on (the reads of the
  store that build the prompt come before the \<open>try\<close> block and are not modelled).
\<close>

definition analyze_page :: "(string \<Rightarrow> json option) \<Rightarrow> py_exception + string \<Rightarrow> py_exception + json" where
  "analyze_page json_loads llm_result =
     with_default analyze_page_default (try_parse json_loads llm_result)"

definition plan_task :: "(string \<Rightarrow> json option) \<Rightarrow> py_exception + string \<Rightarrow> py_exception + json" where
  "plan_task json_loads llm_result =
     with_default plan_task_default (try_parse json_loads llm_result)"

text \<open>
  The spec's wording, for comparison with \<open>search_braces\<close>: the first balanced
  \<open>{...}\<close> block of a text, from its first \<open>{\<close> to the \<open>}\<close> that closes it.
\<close>

fun take_balanced :: "nat \<Rightarrow> string \<Rightarrow> string option" where
  "take_balanced depth [] = None"
| "take_balanced depth (c # cs) =
     (if c = CHR ''{'' then map_option ((#) c) (take_balanced (Suc depth) cs)
      else if c = CHR ''}'' then
        (if depth \<le> 1 then Some [c] else map_option ((#) c) (take_balanced (depth - 1) cs))
      else map_option ((#) c) (take_balanced depth cs))"

definition spec_first_balanced_block :: "string \<Rightarrow> string option" where
  "spec_first_balanced_block response =
     take_balanced 0 (dropWhile (\<lambda>c. c \<noteq> CHR ''{'') response)"

text \<open>
  A parser for the examples: it accepts the empty object and rejects every other text
  (\<open>json.loads\<close> does the same on the texts of the examples).
\<close>

definition loads_empty_object :: "string \<Rightarrow> json option" where
  "loads_empty_object s = (if s = ''{}'' then Some (JObj []) else None)"

section \<open>Choice of the execution mode (\<open>WebAgent.execute_task\<close>)\<close>

text \<open>Truth value of a parsed JSON value, as Python's \<open>if\<close> and \<open>and\<close> read it.\<close>

fun py_truthy :: "json \<Rightarrow> bool" where
  "py_truthy JNull = False"
| "py_truthy (JBool b) = b"
| "py_truthy (JNum r) = (r \<noteq> 0)"
| "py_truthy JNaN = True"
| "py_truthy JInfinity = True"
| "py_truthy JNegInfinity = True"
| "py_truthy (JStr s) = (s \<noteq> [])"
| "py_truthy (JArr xs) = (xs \<noteq> [])"
| "py_truthy (JObj kvs) = (kvs \<noteq> [])"

text \<open>
  The float literal \<open>0.6\<close>: the double nearest to six tenths,
  \<open>5404319552844595 / 2^53\<close>, slightly below it.
\<close>

definition float_0_6 :: rat where
  "float_0_6 = 5404319552844595 / 9007199254740992"

text \<open>\<open>x > 0.6\<close>: numbers and booleans compare by value, \<open>nan\<close> is greater than
  nothing, and any other operand raises \<open>TypeError\<close>.\<close>

fun gt_0_6 :: "json \<Rightarrow> py_exception + bool" where
  "gt_0_6 (JNum r) = Inr (float_0_6 < r)"
| "gt_0_6 (JBool b) = Inr b"
| "gt_0_6 JInfinity = Inr True"
| "gt_0_6 JNegInfinity = Inr False"
| "gt_0_6 JNaN = Inr False"
| "gt_0_6 _ = Inl TypeError"

text \<open>\<open>plan.get(key, dflt)\<close>; on a value that is not a dict the attribute is missing.\<close>

definition dict_get :: "json \<Rightarrow> string \<Rightarrow> json \<Rightarrow> py_exception + json" where
  "dict_get d key dflt =
     (case d of
        JObj kvs \<Rightarrow> Inr (case map_of kvs key of Some v \<Rightarrow> v | None \<Rightarrow> dflt)
      | _ \<Rightarrow> Inl AttributeError)"

datatype execution_mode = PLANNED | LIVE | BROWSER_NOT_STARTED

text \<open>
  The line printed for one step of the plan,
  \<open>f"   {step['step']}. {step['action_detail']}"\<close>: a dict without one of the two keys
  raises \<open>KeyError\<close>, and a step that is not a dict cannot be indexed by a string and
  raises \<open>TypeError\<close>. \<open>None\<close> means that the line was printed.
\<close>

fun print_step :: "json \<Rightarrow> py_exception option" where
  "print_step (JObj kvs) =
     (if map_of kvs ''step'' = None then Some KeyError
      else if map_of kvs ''action_detail'' = None then Some KeyError
      else None)"
| "print_step _ = Some TypeError"

fun print_steps :: "json list \<Rightarrow> py_exception option" where
  "print_steps [] = None"
| "print_steps (step # steps) =
     (case print_step step of Some e \<Rightarrow> Some e | None \<Rightarrow> print_steps steps)"

text \<open>
  \<open>for step in plan.get("plan", []): print(...)\<close>: a list is read step by step; a string
  yields its characters and a dict its keys, which are strings and fail at the first
  one; any other value cannot be iterated.
\<close>

definition print_plan :: "json \<Rightarrow> py_exception option" where
  "print_plan steps =
     (case steps of
        JArr xs \<Rightarrow> print_steps xs
      | JStr s \<Rightarrow> if s = [] then None else Some TypeError
      | JObj kvs \<Rightarrow> if kvs = [] then None else Some TypeError
      | _ \<Rightarrow> Some TypeError)"

text \<open>
  Which way \<open>execute_task\<close> goes. \<open>page\<close>: the browser has a page. \<open>memory\<close>:
  \<open>self._use_memory and self.current_site and self.planner\<close>. \<open>plan\<close>: what \<open>plan_task\<close>
  returned, read only when \<open>memory\<close> holds. The condition is
  \<open>plan.get("can_plan") and plan.get("confidence", 0) > 0.6\<close>, whose right operand is
  evaluated only when the left one is true. When it holds, the confidence is printed as
  a percentage (every value that passed the comparison can be formatted so), the steps of
  the plan are printed, and \<open>_execute_with_plan\<close> is called (\<open>PLANNED\<close>); an exception
  from the printing leaves \<open>execute_task\<close> before that call. \<open>LIVE\<close> is the call of
  \<open>_execute_without_memory\<close>.
\<close>

definition execute_task_mode :: "bool \<Rightarrow> bool \<Rightarrow> json \<Rightarrow> py_exception + execution_mode" where
  "execute_task_mode page memory plan =
     (if \<not> page then Inr BROWSER_NOT_STARTED
      else if memory then
        (case dict_get plan ''can_plan'' JNull of
           Inl e \<Rightarrow> Inl e
         | Inr can_plan \<Rightarrow>
             if py_truthy can_plan then
               (case dict_get plan ''confidence'' (JNum 0) of
                  Inl e \<Rightarrow> Inl e
                | Inr confidence \<Rightarrow>
                    (case gt_0_6 confidence of
                       Inl e \<Rightarrow> Inl e
                     | Inr True \<Rightarrow>
                         (case dict_get plan ''plan'' (JArr []) of
                            Inl e \<Rightarrow> Inl e
                          | Inr steps \<Rightarrow>
                              (case print_plan steps of
                                 Some e \<Rightarrow> Inl e
                               | None \<Rightarrow> Inr PLANNED))
                     | Inr False \<Rightarrow> Inr LIVE))
             else Inr LIVE)
      else Inr LIVE)"

text \<open>
  The plans of the scenario: \<open>can_plan\<close> true and a confidence. \<open>float_0_55\<close> and
  \<open>float_0_61\<close> are the doubles that the tokens \<open>0.55\<close> and \<open>0.61\<close> are read as.
\<close>

definition float_0_55 :: rat where
  "float_0_55 = 2476979795053773 / 4503599627370496"

definition float_0_61 :: rat where
  "float_0_61 = 5494391545392005 / 9007199254740992"

definition plan_with :: "rat \<Rightarrow> json list \<Rightarrow> json" where
  "plan_with confidence steps =
     JObj [(''can_plan'', JBool True), (''confidence'', JNum confidence),
           (''plan'', JArr steps), (''unknown_steps'', JArr [])]"

text \<open>A step as the planning prompt asks for it, and one without \<open>action_detail\<close>.\<close>

definition full_step :: json where
  "full_step =
     JObj [(''step'', JNum 1), (''action_type'', JStr ''click''),
           (''target_description'', JStr ''New Task button''),
           (''action_detail'', JStr ''Click New Task''),
           (''expected_result'', JStr ''A form opens'')]"

definition step_without_detail :: json where
  "step_without_detail =
     JObj [(''step'', JNum 1), (''action_type'', JStr ''click''),
           (''target_description'', JStr ''New Task button'')]"

definition scenario_plan :: "rat \<Rightarrow> json" where
  "scenario_plan confidence = plan_with confidence [full_step]"

section \<open>The action executor (\<open>executor/action_executor.py\<close>)\<close>

text \<open>
  The seven patterns are compiled with \<open>re.IGNORECASE\<close> and used with \<open>search\<close>. A literal
  word of a pattern matches at the head of a text when the two agree up to the case of
  ASCII letters.
\<close>

definition ci_prefix :: "string \<Rightarrow> string \<Rightarrow> bool" where
  "ci_prefix lit s \<longleftrightarrow> prefix (py_lower lit) (py_lower s)"

text \<open>
  \<open>pattern.search(text)\<close> for a pattern that begins with a literal word: the match at the
  leftmost position where the pattern matches; \<open>m\<close> matches the pattern at the head of a
  text and returns its groups.
\<close>

fun re_search :: "(string \<Rightarrow> 'a option) \<Rightarrow> string \<Rightarrow> 'a option" where
  "re_search m [] = m []"
| "re_search m (c # cs) = (case m (c # cs) of Some g \<Rightarrow> Some g | None \<Rightarrow> re_search m cs)"

text \<open>\<open>DONE_PATTERN.search(action)\<close> and \<open>PAUSE_PATTERN.search(action)\<close>, as truth values.\<close>

definition done_search :: "string \<Rightarrow> bool" where
  "done_search action \<longleftrightarrow>
     re_search (\<lambda>s. if ci_prefix ''DONE'' s then Some () else None) action \<noteq> None"

definition pause_search :: "string \<Rightarrow> bool" where
  "pause_search action \<longleftrightarrow>
     re_search (\<lambda>s. if ci_prefix ''PAUSE'' s then Some () else None) action \<noteq> None"

text \<open>\<open>int(digits)\<close> for a string of decimal digits.\<close>

definition digit_value :: "char \<Rightarrow> nat" where
  "digit_value c =
     (case map_of (zip ''0123456789'' [0, 1, 2, 3, 4, 5, 6, 7, 8, 9]) c of
        Some d \<Rightarrow> d
      | None \<Rightarrow> 0)"

definition int_of_digits :: "string \<Rightarrow> nat" where
  "int_of_digits ds = foldl (\<lambda>n c. 10 * n + digit_value c) 0 ds"

text \<open>
  \<open>\s*\[[@#$%]?(\d+)\]\<close> at the head of a text: the tag number and the text after the
  closing bracket.
\<close>

definition match_tag :: "string \<Rightarrow> (nat \<times> string) option" where
  "match_tag s =
     (case dropWhile is_space s of
        [] \<Rightarrow> None
      | b # r1 \<Rightarrow>
          if b \<noteq> CHR ''['' then None
          else
            (let r2 = (case r1 of
                         [] \<Rightarrow> []
                       | g # r \<Rightarrow> if g \<in> set ''@#$%'' then r else r1);
                 digits = takeWhile is_digit r2
             in case dropWhile is_digit r2 of
                  [] \<Rightarrow> None
                | e # rest \<Rightarrow>
                    if digits \<noteq> [] \<and> e = CHR '']'' then Some (int_of_digits digits, rest)
                    else None))"

text \<open>
  \<open>\s*["\'](.+?)["\']\<close> at the head of a text: after the opening quote the group takes one
  character and then as few more as possible up to the next quote of either kind; the dot
  matches every character but the newline.
\<close>

definition is_quote :: "char \<Rightarrow> bool" where
  "is_quote c \<longleftrightarrow> c = CHR 0x22 \<or> c = CHR 0x27"

definition match_quoted :: "string \<Rightarrow> string option" where
  "match_quoted s =
     (case dropWhile is_space s of
        q # x # xs \<Rightarrow>
          (let inner = takeWhile (\<lambda>c. \<not> is_quote c) xs
           in if is_quote q \<and> x \<noteq> CHR 0x0A \<and> CHR 0x0A \<notin> set inner \<and>
                 dropWhile (\<lambda>c. \<not> is_quote c) xs \<noteq> []
              then Some (x # inner) else None)
      | _ \<Rightarrow> None)"

text \<open>The patterns \<open>CLICK\<close>, \<open>TYPE\<close>, \<open>SCROLL\<close>, \<open>GOTO\<close> and \<open>WAIT\<close> at the head of a text.\<close>

definition match_click :: "string \<Rightarrow> nat option" where
  "match_click s =
     (if ci_prefix ''CLICK'' s then map_option fst (match_tag (drop 5 s)) else None)"

definition match_type :: "string \<Rightarrow> (nat \<times> string) option" where
  "match_type s =
     (if ci_prefix ''TYPE'' s then
        (case match_tag (drop 4 s) of
           None \<Rightarrow> None
         | Some (tag_id, rest) \<Rightarrow> map_option (Pair tag_id) (match_quoted rest))
      else None)"

datatype direction = UP | DOWN

definition match_scroll :: "string \<Rightarrow> direction option" where
  "match_scroll s =
     (if ci_prefix ''SCROLL'' s then
        (case drop 6 s of
           [] \<Rightarrow> None
         | w # ws \<Rightarrow>
             if is_space w then
               (let r = dropWhile is_space ws
                in if ci_prefix ''UP'' r then Some UP
                   else if ci_prefix ''DOWN'' r then Some DOWN
                   else None)
             else None)
      else None)"

definition match_goto :: "string \<Rightarrow> string option" where
  "match_goto s = (if ci_prefix ''GOTO'' s then match_quoted (drop 4 s) else None)"

text \<open>\<open>WAIT\s*(\d+)?\<close>: the digits of group 1, empty when the group did not take part.\<close>

definition match_wait :: "string \<Rightarrow> string option" where
  "match_wait s =
     (if ci_prefix ''WAIT'' s
      then Some (takeWhile is_digit (dropWhile is_space (drop 4 s)))
      else None)"

text \<open>
  The browser page, as far as the executor uses it: whether a click on a locator, a
  clear-and-fill of a locator, a turn of the mouse wheel and a navigation succeed; a
  failure is an exception of class \<open>Exception\<close>, which each helper catches.
\<close>

record browser =
  click_ok :: "string \<Rightarrow> bool"
  fill_ok :: "string \<Rightarrow> string \<Rightarrow> bool"
  wheel_ok :: "int \<Rightarrow> bool"
  goto_ok :: "string \<Rightarrow> bool"

text \<open>What the executor does to the outside: browser calls, \<open>input()\<close>, and sleeps in
  milliseconds.\<close>

datatype effect =
  Click string | Fill string string | Wheel int | Goto string | Input | Sleep nat

text \<open>The second component of the result, one constructor for each message format.\<close>

datatype outcome =
  TaskDone
  | ManualDone
  | Waited nat
  | NoElement nat
  | Clicked nat
  | ClickFailed nat
  | Typed nat
  | TypeFailed nat
  | Scrolled direction
  | ScrollFailed
  | Navigated string
  | NavigateFailed string
  | CannotParse string

type_synonym exec_result = "bool \<times> outcome \<times> effect list"

text \<open>\<open>tag_to_xpath.get(tag_id)\<close> followed by \<open>if not xpath\<close>: a missing or empty locator.\<close>

definition lookup_xpath :: "(nat \<rightharpoonup> string) \<Rightarrow> nat \<Rightarrow> string option" where
  "lookup_xpath tag_to_xpath tag_id =
     (case tag_to_xpath tag_id of
        None \<Rightarrow> None
      | Some xpath \<Rightarrow> if xpath = [] then None else Some xpath)"

definition click :: "browser \<Rightarrow> nat \<Rightarrow> (nat \<rightharpoonup> string) \<Rightarrow> exec_result" where
  "click br tag_id tag_to_xpath =
     (case lookup_xpath tag_to_xpath tag_id of
        None \<Rightarrow> (False, NoElement tag_id, [])
      | Some xpath \<Rightarrow>
          if click_ok br xpath then (False, Clicked tag_id, [Click xpath, Sleep 1000])
          else (False, ClickFailed tag_id, [Click xpath]))"

definition type_text :: "browser \<Rightarrow> nat \<Rightarrow> string \<Rightarrow> (nat \<rightharpoonup> string) \<Rightarrow> exec_result" where
  "type_text br tag_id txt tag_to_xpath =
     (case lookup_xpath tag_to_xpath tag_id of
        None \<Rightarrow> (False, NoElement tag_id, [])
      | Some xpath \<Rightarrow>
          if fill_ok br xpath txt then (False, Typed tag_id, [Fill xpath txt, Sleep 500])
          else (False, TypeFailed tag_id, [Fill xpath txt]))"

definition scroll :: "browser \<Rightarrow> direction \<Rightarrow> exec_result" where
  "scroll br d =
     (let delta = (if d = UP then - 500 else 500)
      in if wheel_ok br delta then (False, Scrolled d, [Wheel delta, Sleep 500])
         else (False, ScrollFailed, [Wheel delta]))"

definition goto :: "browser \<Rightarrow> string \<Rightarrow> exec_result" where
  "goto br url =
     (let url' = (if prefix ''http://'' url \<or> prefix ''https://'' url then url
                  else ''https://'' @ url)
      in if goto_ok br url' then (False, Navigated url', [Goto url', Sleep 1000])
         else (False, NavigateFailed url', [Goto url']))"

text \<open>
  \<open>ActionExecutor.execute\<close>. The patterns are tried in the order of the source: \<open>DONE\<close>,
  \<open>PAUSE\<close>, \<open>WAIT\<close>, \<open>CLICK\<close>, \<open>TYPE\<close>, \<open>SCROLL\<close>, \<open>GOTO\<close>; \<open>input()\<close> is taken to return.
\<close>

definition execute :: "browser \<Rightarrow> string \<Rightarrow> (nat \<rightharpoonup> string) \<Rightarrow> exec_result" where
  "execute br action0 tag_to_xpath =
     (let action = py_strip action0
      in if done_search action then (True, TaskDone, [])
         else if pause_search action then (False, ManualDone, [Input, Sleep 1000])
         else
           (case re_search match_wait action of
              Some digits \<Rightarrow>
                (let seconds = (if digits \<noteq> [] then int_of_digits digits else 2);
                     seconds = min seconds 30
                 in (False, Waited seconds, [Sleep (1000 * seconds)]))
            | None \<Rightarrow>
           (case re_search match_click action of
              Some tag_id \<Rightarrow> click br tag_id tag_to_xpath
            | None \<Rightarrow>
           (case re_search match_type action of
              Some (tag_id, txt) \<Rightarrow> type_text br tag_id txt tag_to_xpath
            | None \<Rightarrow>
           (case re_search match_scroll action of
              Some d \<Rightarrow> scroll br d
            | None \<Rightarrow>
           (case re_search match_goto action of
              Some url \<Rightarrow> goto br url
            | None \<Rightarrow> (False, CannotParse action, [])))))))"

section \<open>Live execution (\<open>WebAgent._execute_without_memory\<close>)\<close>


text \<open>
  The loop is modelled without an \<open>on_step\<close> callback; the write of the task path on
  completion (inside its own \<open>try\<close>) and the pause of half a second between steps leave
  the result unchanged and are not modelled.
\<close>







text \<open>Surroundings for the examples: the flag stays set and the model answers the same
  action at every step, except at step \<open>k\<close> where it answers \<open>DONE\<close>.\<close>

definition ex_browser :: browser where
  "ex_browser = \<lparr>click_ok = (\<lambda>x. True), fill_ok = (\<lambda>x t. True), wheel_ok = (\<lambda>d. True),
     goto_ok = (\<lambda>u. True)\<rparr>"




section \<open>Properties of the URL pattern matcher\<close>

lemma segments_match_iff:
  "length us = length ps \<Longrightarrow>
   segments_match us ps \<longleftrightarrow> (\<forall>i<length ps. segment_ok (us ! i) (ps ! i))"
proof (induction us ps rule: list_induct2)
  case Nil
  then show ?case by simp
next
  case (Cons u us p ps)
  then show ?case
    by (auto simp: segment_ok_def All_less_Suc2)
qed

lemmas string_eval =
  path_parts_def plain_url_path_def strip_char_def isdigit_def is_digit_def segment_ok_def
  py_lower_def lower_char_def py_split_def is_space_def

text \<open>
  Claim C4. For a non-empty pattern (every normalized URL is non-empty: it contains
  \<open>://\<close>), the matcher returns true exactly when the two lists of path segments have the
  same length and every pair of segments passes: the pattern segment equals the URL
  segment, or is the wildcard \<open>*\<close>, or both are digit strings. So equal, wildcard and
  numeric pairs give true, and a single pair that is none of the three gives false.
\<close>

theorem url_matches_pattern_iff:
  "url_matches_pattern path_of url pattern \<longleftrightarrow>
     pattern \<noteq> [] \<and>
     length (path_parts path_of url) = length (path_parts path_of pattern) \<and>
     (\<forall>i<length (path_parts path_of pattern).
        segment_ok (path_parts path_of url ! i) (path_parts path_of pattern ! i))"
  by (auto simp: url_matches_pattern_def Let_def segments_match_iff)

theorem url_matches_pattern_iff_witness:
  "url_matches_pattern plain_url_path ''http://a.io/order/123/edit'' ''http://a.io/*/456/edit'' \<and>
   \<not> url_matches_pattern plain_url_path ''http://a.io/order/123/view'' ''http://a.io/*/456/edit''"
proof
  have "\<forall>i<length (path_parts plain_url_path ''http://a.io/*/456/edit'').
          segment_ok (path_parts plain_url_path ''http://a.io/order/123/edit'' ! i)
                     (path_parts plain_url_path ''http://a.io/*/456/edit'' ! i)"
    by (simp add: string_eval All_less_Suc)
  then show "url_matches_pattern plain_url_path ''http://a.io/order/123/edit''
               ''http://a.io/*/456/edit''"
    using url_matches_pattern_iff[of plain_url_path "''http://a.io/order/123/edit''"
                                     "''http://a.io/*/456/edit''"]
    by (simp add: string_eval)
next
  have "\<not> segment_ok (path_parts plain_url_path ''http://a.io/order/123/view'' ! 2)
                       (path_parts plain_url_path ''http://a.io/*/456/edit'' ! 2)"
    by (simp add: string_eval)
  moreover have "2 < length (path_parts plain_url_path ''http://a.io/*/456/edit'')"
    by (simp add: string_eval)
  ultimately show "\<not> url_matches_pattern plain_url_path ''http://a.io/order/123/view''
                       ''http://a.io/*/456/edit''"
    using url_matches_pattern_iff[of plain_url_path "''http://a.io/order/123/view''"
                                     "''http://a.io/*/456/edit''"]
    by blast
qed

section \<open>Properties of \<open>find_similar_page\<close>\<close>


lemma ex_page_facts:
  "\<not> url_matches_pattern plain_url_path ''http://a.io/order/456'' (url_pattern ex_home)"
  "url_matches_pattern plain_url_path ''http://a.io/order/456'' (url_pattern ex_order)"
  "title_matches ''orders'' ex_home"
  "\<not> title_matches ''Checkout'' ex_order"
  "\<not> title_matches ''Checkout'' ex_home"
  by (simp_all add: url_matches_pattern_def title_matches_def ex_home_def ex_order_def
        string_eval)




text \<open>
  Claim C2. On the same rows the two backends disagree: for a URL that matches the
  stored pattern and a title that matches no stored title, the embedded backend returns
  the page and the client/server backend returns nothing, since its loop has no URL test.
\<close>

theorem find_similar_page_backends_differ:
  "sqlite_find_similar_page plain_url_path [ex_order] 1 ''http://a.io/order/456'' ''Checkout''
     = Some ex_order \<and>
   mysql_find_similar_page [ex_order] 1 ''http://a.io/order/456'' ''Checkout'' = None"
  by (simp add: sqlite_find_similar_page_def mysql_find_similar_page_def
        select_pages_by_site_def ex_page_facts)
     (simp add: ex_order_def)

section \<open>Properties of \<open>find_task_path\<close>\<close>

lemma best_loop_unchanged:
  "\<forall>tp\<in>set rows. keyword_score kws tp \<le> bs \<Longrightarrow> best_loop kws bm bs rows = (bm, bs)"
  by (induction rows arbitrary: bm bs) (auto simp: Let_def)

lemma best_loop_improves:
  "\<exists>tp\<in>set rows. bs < keyword_score kws tp \<Longrightarrow>
   \<exists>i<length rows.
     best_loop kws bm bs rows = (Some (rows ! i), keyword_score kws (rows ! i)) \<and>
     bs < keyword_score kws (rows ! i) \<and>
     (\<forall>j<length rows. keyword_score kws (rows ! j) \<le> keyword_score kws (rows ! i)) \<and>
     (\<forall>j<i. keyword_score kws (rows ! j) < keyword_score kws (rows ! i))"
proof (induction rows arbitrary: bm bs)
  case Nil
  then show ?case by simp
next
  case (Cons tp rows)
  let ?sc = "keyword_score kws"
  show ?case
  proof (cases "bs < ?sc tp")
    case True
    note better = this
    show ?thesis
    proof (cases "\<exists>r\<in>set rows. ?sc tp < ?sc r")
      case True
      from Cons.IH[OF True, of "Some tp"] obtain i where i: "i < length rows"
        "best_loop kws (Some tp) (?sc tp) rows = (Some (rows ! i), ?sc (rows ! i))"
        "?sc tp < ?sc (rows ! i)"
        "\<forall>j<length rows. ?sc (rows ! j) \<le> ?sc (rows ! i)"
        "\<forall>j<i. ?sc (rows ! j) < ?sc (rows ! i)"
        by blast
      have "Suc i < length (tp # rows)" using i(1) by simp
      moreover have "best_loop kws bm bs (tp # rows) =
          (Some ((tp # rows) ! Suc i), ?sc ((tp # rows) ! Suc i))"
        using better i(2) by (simp add: Let_def)
      moreover have "bs < ?sc ((tp # rows) ! Suc i)" using better i(3) by simp
      moreover have "\<forall>j<length (tp # rows). ?sc ((tp # rows) ! j) \<le> ?sc ((tp # rows) ! Suc i)"
        using i(3,4) by (auto simp: nth_Cons split: nat.splits)
      moreover have "\<forall>j<Suc i. ?sc ((tp # rows) ! j) < ?sc ((tp # rows) ! Suc i)"
        using i(3,5) by (auto simp: nth_Cons split: nat.splits)
      ultimately show ?thesis by blast
    next
      case False
      then have le: "\<forall>r\<in>set rows. ?sc r \<le> ?sc tp" by auto
      have "best_loop kws bm bs (tp # rows) = (Some tp, ?sc tp)"
        using better best_loop_unchanged[OF le] by (simp add: Let_def)
      moreover have "\<forall>j<length (tp # rows). ?sc ((tp # rows) ! j) \<le> ?sc tp"
        using le by (auto simp: nth_Cons split: nat.splits)
      ultimately show ?thesis using better
        by (intro exI[of _ 0]) simp
    qed
  next
    case False
    then have notbetter: "?sc tp \<le> bs" by simp
    with Cons.prems have ex: "\<exists>r\<in>set rows. bs < ?sc r" by auto
    from Cons.IH[OF ex, of bm] obtain i where i: "i < length rows"
        "best_loop kws bm bs rows = (Some (rows ! i), ?sc (rows ! i))"
        "bs < ?sc (rows ! i)"
        "\<forall>j<length rows. ?sc (rows ! j) \<le> ?sc (rows ! i)"
        "\<forall>j<i. ?sc (rows ! j) < ?sc (rows ! i)"
      by blast
    have "Suc i < length (tp # rows)" using i(1) by simp
    moreover have "best_loop kws bm bs (tp # rows) =
        (Some ((tp # rows) ! Suc i), ?sc ((tp # rows) ! Suc i))"
      using notbetter i(2) by (simp add: Let_def)
    moreover have "bs < ?sc ((tp # rows) ! Suc i)" using i(3) by simp
    moreover have "\<forall>j<length (tp # rows). ?sc ((tp # rows) ! j) \<le> ?sc ((tp # rows) ! Suc i)"
      using i(3,4) notbetter by (auto simp: nth_Cons split: nat.splits)
    moreover have "\<forall>j<Suc i. ?sc ((tp # rows) ! j) < ?sc ((tp # rows) ! Suc i)"
      using i(3,5) notbetter by (auto simp: nth_Cons split: nat.splits)
    ultimately show ?thesis by blast
  qed
qed

lemma ex_scores:
  "keyword_score (py_split (py_lower ''Create ORDER now'')) ex_tp_delete = 1"
  "keyword_score (py_split (py_lower ''Create ORDER now'')) ex_tp_create = 2"
  "keyword_score (py_split (py_lower ''Create ORDER now'')) ex_tp_other_site = 3"
  "keyword_score (py_split (py_lower ''an order'')) ex_tp_delete = 1"
  "keyword_score (py_split (py_lower ''an order'')) ex_tp_create = 1"
  "keyword_score (py_split (py_lower ''log out'')) ex_tp_delete = 0"
  "keyword_score (py_split (py_lower ''log out'')) ex_tp_create = 0"
  by (simp_all add: keyword_score_def ex_tp_delete_def ex_tp_create_def ex_tp_other_site_def
        string_eval)

lemma py_in_sublist: "py_in a b \<longleftrightarrow> sublist a b"
  by (induction b) (simp_all add: sublist_Cons_right)

lemma keyword_score_sublist:
  "keyword_score kws tp = length (filter (\<lambda>kw. sublist kw (py_lower (task_keywords tp))) kws)"
  by (simp add: keyword_score_def py_in_sublist)

lemma find_task_path_selected_rows:
  fixes task_paths :: "TaskPath list" and sid :: int and description :: string
  defines "rows \<equiv> select_task_paths_by_site task_paths sid"
    and "score \<equiv> keyword_score (py_split (py_lower description))"
  shows "if \<forall>tp\<in>set rows. score tp = 0
         then find_task_path task_paths sid description = None
         else \<exists>i<length rows.
                find_task_path task_paths sid description = Some (rows ! i) \<and>
                0 < score (rows ! i) \<and>
                (\<forall>j<length rows. score (rows ! j) \<le> score (rows ! i)) \<and>
                (\<forall>j<i. score (rows ! j) < score (rows ! i))"
proof (cases "\<forall>tp\<in>set rows. score tp = 0")
  case True
  then have "\<forall>tp\<in>set rows. score tp \<le> 0" by simp
  then have "best_loop (py_split (py_lower description)) None 0 rows = (None, 0)"
    unfolding score_def by (rule best_loop_unchanged)
  then show ?thesis using True
    by (simp add: find_task_path_def Let_def rows_def)
next
  case False
  then have "\<exists>tp\<in>set rows. 0 < score tp" by auto
  from best_loop_improves[OF this[unfolded score_def], of None]
  obtain i where i: "i < length rows"
    "best_loop (py_split (py_lower description)) None 0 rows = (Some (rows ! i), score (rows ! i))"
    "0 < score (rows ! i)"
    "\<forall>j<length rows. score (rows ! j) \<le> score (rows ! i)"
    "\<forall>j<i. score (rows ! j) < score (rows ! i)"
    unfolding score_def by blast
  have "find_task_path task_paths sid description = Some (rows ! i)"
    using i(2,3) by (simp add: find_task_path_def Let_def rows_def)
  with i False show ?thesis by auto
qed

text \<open>
  Claim C5. Let \<open>rows\<close> be the stored task paths whose \<open>site_id\<close> is the given one, in
  store order, and the score of a path the number of tokens of the lower-cased,
  whitespace-split description that occur as substrings of its lower-cased
  \<open>task_keywords\<close>. \<open>find_task_path\<close> returns nothing when every path of the site
  scores zero (in particular when the site has no paths or the description no tokens),
  and otherwise the path at the first position of \<open>rows\<close> whose score is the maximum,
  which is positive. A path of another site is never returned, whatever it scores, and a
  value is returned in every case.
\<close>

theorem find_task_path_best_first:
  fixes task_paths :: "TaskPath list" and sid :: int and description :: string
  defines "rows \<equiv> filter (\<lambda>tp. tp_site_id tp = sid) task_paths"
    and "score \<equiv> \<lambda>tp. length (filter (\<lambda>kw. sublist kw (py_lower (task_keywords tp)))
                                   (py_split (py_lower description)))"
  shows "(if \<forall>tp\<in>set rows. score tp = 0
          then find_task_path task_paths sid description = None
          else \<exists>i<length rows.
                 find_task_path task_paths sid description = Some (rows ! i) \<and>
                 0 < score (rows ! i) \<and>
                 (\<forall>j<length rows. score (rows ! j) \<le> score (rows ! i)) \<and>
                 (\<forall>j<i. score (rows ! j) < score (rows ! i))) \<and>
         (\<forall>tp. find_task_path task_paths sid description = Some tp \<longrightarrow>
               tp \<in> set task_paths \<and> tp_site_id tp = sid)"
proof -
  have rows: "rows = select_task_paths_by_site task_paths sid"
    by (simp add: rows_def select_task_paths_by_site_def)
  have score: "score = keyword_score (py_split (py_lower description))"
    by (simp add: score_def keyword_score_sublist fun_eq_iff)
  have main: "if \<forall>tp\<in>set rows. score tp = 0
          then find_task_path task_paths sid description = None
          else \<exists>i<length rows.
                 find_task_path task_paths sid description = Some (rows ! i) \<and>
                 0 < score (rows ! i) \<and>
                 (\<forall>j<length rows. score (rows ! j) \<le> score (rows ! i)) \<and>
                 (\<forall>j<i. score (rows ! j) < score (rows ! i))"
    unfolding rows score by (rule find_task_path_selected_rows)
  have "tp \<in> set task_paths \<and> tp_site_id tp = sid"
    if "find_task_path task_paths sid description = Some tp" for tp
  proof -
    from main that obtain i where "i < length rows" "tp = rows ! i"
      by (auto split: if_splits)
    then have "tp \<in> set rows" by simp
    then show ?thesis by (simp add: rows_def)
  qed
  with main show ?thesis by blast
qed

theorem find_task_path_best_first_witness:
  "find_task_path [ex_tp_other_site, ex_tp_delete, ex_tp_create] 1 ''Create ORDER now''
     = Some ex_tp_create \<and>
   find_task_path [ex_tp_other_site, ex_tp_delete, ex_tp_create] 1 ''an order''
     = Some ex_tp_delete \<and>
   find_task_path [ex_tp_other_site, ex_tp_delete, ex_tp_create] 1 ''log out'' = None \<and>
   find_task_path [ex_tp_other_site, ex_tp_delete, ex_tp_create] 2 ''Create ORDER now''
     = Some ex_tp_other_site"
proof -
  let ?all = "[ex_tp_other_site, ex_tp_delete, ex_tp_create]"
  have rows1: "filter (\<lambda>tp. tp_site_id tp = 1) ?all = [ex_tp_delete, ex_tp_create]"
    by (simp add: ex_tp_delete_def ex_tp_create_def ex_tp_other_site_def)
  have rows2: "filter (\<lambda>tp. tp_site_id tp = 2) ?all = [ex_tp_other_site]"
    by (simp add: ex_tp_delete_def ex_tp_create_def ex_tp_other_site_def)
  have "find_task_path ?all 1 ''Create ORDER now'' = Some ex_tp_create"
    using find_task_path_best_first[of 1 ?all "''Create ORDER now''", THEN conjunct1]
    unfolding rows1 keyword_score_sublist[symmetric]
    by (auto simp: ex_scores less_Suc_eq)
  moreover
  have "find_task_path ?all 1 ''an order'' = Some ex_tp_delete"
    using find_task_path_best_first[of 1 ?all "''an order''", THEN conjunct1]
    unfolding rows1 keyword_score_sublist[symmetric]
    by (auto simp: ex_scores less_Suc_eq)
  moreover
  have "find_task_path ?all 1 ''log out'' = None"
    using find_task_path_best_first[of 1 ?all "''log out''", THEN conjunct1]
    unfolding rows1 keyword_score_sublist[symmetric]
    by (simp add: ex_scores)
  moreover
  have "find_task_path ?all 2 ''Create ORDER now'' = Some ex_tp_other_site"
    using find_task_path_best_first[of 2 ?all "''Create ORDER now''", THEN conjunct1]
    unfolding rows2 keyword_score_sublist[symmetric]
    by (auto simp: ex_scores)
  ultimately show ?thesis by simp
qed

section \<open>Properties of \<open>get_or_create_site\<close>\<close>

lemma count_domain_distinct:
  "distinct (map row_domain rows) \<Longrightarrow> r \<in> set rows \<Longrightarrow>
   length (filter (\<lambda>x. row_domain x = row_domain r) rows) = 1"
proof (induction rows)
  case Nil
  then show ?case by simp
next
  case (Cons a rows)
  show ?case
  proof (cases "r = a")
    case True
    from Cons.prems(1) have "row_domain a \<notin> row_domain ` set rows" by simp
    then have "\<forall>x\<in>set rows. row_domain x \<noteq> row_domain a"
      by (metis imageI)
    then have "filter (\<lambda>x. row_domain x = row_domain a) rows = []"
      by (simp add: filter_empty_conv)
    with True show ?thesis by simp
  next
    case False
    with Cons.prems have r: "r \<in> set rows" by simp
    with Cons.prems(1) have "row_domain a \<noteq> row_domain r" by auto
    with Cons.IH r Cons.prems(1) show ?thesis by simp
  qed
qed

lemma find_append_rows:
  "find P (xs @ ys) = (case find P xs of None \<Rightarrow> find P ys | Some x \<Rightarrow> Some x)"
  by (induction xs) auto

lemma get_or_create_site_post:
  assumes "distinct (map row_domain (site_rows db))"
    and "get_or_create_site db domain name description now = (db1, s1)"
  shows "\<exists>row. find (\<lambda>r. row_domain r = domain) (site_rows db1) = Some row \<and>
               site_id s1 = Some (row_id row)"
    and "distinct (map row_domain (site_rows db1))"
    and "length (filter (\<lambda>r. row_domain r = domain) (site_rows db1)) = 1"
proof -
  show "\<exists>row. find (\<lambda>r. row_domain r = domain) (site_rows db1) = Some row \<and>
               site_id s1 = Some (row_id row)"
    using assms(2)
    by (auto simp: get_or_create_site_def Let_def find_None_iff2 find_append_rows
             split: option.splits)
  show "distinct (map row_domain (site_rows db1))"
    using assms
    by (auto simp: get_or_create_site_def Let_def find_None_iff split: option.splits)
  show "length (filter (\<lambda>r. row_domain r = domain) (site_rows db1)) = 1"
  proof (cases "find (\<lambda>r. row_domain r = domain) (site_rows db)")
    case None
    then have "filter (\<lambda>r. row_domain r = domain) (site_rows db) = []"
      by (auto simp: find_None_iff filter_empty_conv)
    with None assms(2) show ?thesis
      by (auto simp: get_or_create_site_def Let_def)
  next
    case (Some row)
    then have "row \<in> set (site_rows db)" "row_domain row = domain"
      by (auto simp: find_Some_iff in_set_conv_nth)
    with count_domain_distinct[OF assms(1), of row] Some assms(2) show ?thesis
      by (auto simp: get_or_create_site_def)
  qed
qed

lemma get_or_create_site_again:
  assumes "find (\<lambda>r. row_domain r = domain) (site_rows db1) = Some row"
  shows "fst (get_or_create_site db1 domain name description now) = db1"
    and "site_id (snd (get_or_create_site db1 domain name description now)) = Some (row_id row)"
  using assms by (simp_all add: get_or_create_site_def)

lemma fold_calls_unchanged:
  assumes "length (filter (\<lambda>r. row_domain r = domain) (site_rows db)) = 1"
  shows "fold (\<lambda>(n, d, t) db. fst (get_or_create_site db domain n d t)) calls db = db"
proof -
  from assms have "filter (\<lambda>r. row_domain r = domain) (site_rows db) \<noteq> []" by auto
  then obtain row where row: "find (\<lambda>r. row_domain r = domain) (site_rows db) = Some row"
    by (cases "find (\<lambda>r. row_domain r = domain) (site_rows db)")
       (auto simp: find_None_iff filter_empty_conv)
  show ?thesis
    by (induction calls) (auto simp: get_or_create_site_again(1)[OF row])
qed

text \<open>
  Claim C6. On a \<open>sites\<close> table that satisfies its \<open>UNIQUE\<close> constraint on \<open>domain\<close>, two
  successive calls of \<open>get_or_create_site\<close> with the same domain (whatever the other
  arguments) return sites with the same id, the second call leaves the database as the
  first one left it, and the table then holds exactly one row with that domain, also
  after any further sequence of calls with that domain.
\<close>

theorem get_or_create_site_idempotent:
  assumes "distinct (map row_domain (site_rows db))"
    and "get_or_create_site db domain n1 d1 t1 = (db1, s1)"
    and "get_or_create_site db1 domain n2 d2 t2 = (db2, s2)"
  shows "site_id s2 = site_id s1 \<and> site_id s1 \<noteq> None \<and> db2 = db1 \<and>
         length (filter (\<lambda>r. row_domain r = domain) (site_rows db2)) = 1 \<and>
         (\<forall>calls. length (filter (\<lambda>r. row_domain r = domain)
            (site_rows (fold (\<lambda>(n, d, t) db. fst (get_or_create_site db domain n d t))
               calls db2))) = 1)"
proof -
  from get_or_create_site_post[OF assms(1,2)] obtain row where
    row: "find (\<lambda>r. row_domain r = domain) (site_rows db1) = Some row"
      "site_id s1 = Some (row_id row)"
    and c1: "length (filter (\<lambda>r. row_domain r = domain) (site_rows db1)) = 1"
    by blast
  from get_or_create_site_again[OF row(1), of n2 d2 t2] assms(3)
  have same: "db2 = db1" "site_id s2 = Some (row_id row)" by simp_all
  have "fold (\<lambda>(n, d, t) db. fst (get_or_create_site db domain n d t)) calls db1 = db1"
    for calls by (rule fold_calls_unchanged[OF c1])
  with same show ?thesis using row(2) c1 by simp
qed

lemma ex_sites_calls:
  "get_or_create_site ex_sites ''b.io'' '''' ''docs'' 7 =
     (\<lparr>site_rows = site_rows ex_sites @
         [\<lparr>row_id = 2, row_domain = ''b.io'', row_name = ''b.io'', row_description = ''docs'',
           row_created_at = Some 7, row_updated_at = Some 7\<rparr>], site_seq = 2\<rparr>,
      \<lparr>site_id = Some 2, site_domain = ''b.io'', site_name = ''b.io'',
        site_description = ''docs'', created_at = 7, updated_at = 7\<rparr>)"
  "get_or_create_site
     \<lparr>site_rows = site_rows ex_sites @
         [\<lparr>row_id = 2, row_domain = ''b.io'', row_name = ''b.io'', row_description = ''docs'',
           row_created_at = Some 7, row_updated_at = Some 7\<rparr>], site_seq = 2\<rparr>
     ''b.io'' ''B'' '''' 9 =
     (\<lparr>site_rows = site_rows ex_sites @
         [\<lparr>row_id = 2, row_domain = ''b.io'', row_name = ''b.io'', row_description = ''docs'',
           row_created_at = Some 7, row_updated_at = Some 7\<rparr>], site_seq = 2\<rparr>,
      \<lparr>site_id = Some 2, site_domain = ''b.io'', site_name = ''b.io'',
        site_description = ''docs'', created_at = 7, updated_at = 7\<rparr>)"
  "distinct (map row_domain (site_rows ex_sites))"
  by (simp_all add: get_or_create_site_def ex_sites_def)

theorem get_or_create_site_idempotent_witness:
  "length (filter (\<lambda>r. row_domain r = ''b.io'')
     (site_rows (fst (get_or_create_site (fst (get_or_create_site ex_sites ''b.io'' '''' ''docs'' 7))
        ''b.io'' ''B'' '''' 9)))) = 1"
  using get_or_create_site_idempotent[OF ex_sites_calls(3) ex_sites_calls(1) ex_sites_calls(2)]
  by (simp add: ex_sites_calls(1,2))

section \<open>Properties of the ordering of \<open>pending_items\<close>\<close>

lemma mset_sort_reverse: "mset (sort_reverse k xs) = mset xs"
  by (simp add: sort_reverse_def)

lemma sorted_sort_reverse: "sorted_wrt (\<lambda>a b. k b \<le> k a) (sort_reverse k xs)"
proof -
  have "sorted (map k (sort_key k (rev xs)))" by simp
  then have "sorted_wrt (\<lambda>a b. k a \<le> k b) (sort_key k (rev xs))"
    by (simp add: sorted_wrt_map)
  then show ?thesis
    by (simp add: sort_reverse_def sorted_wrt_rev)
qed

lemma stable_sort_reverse:
  "filter (\<lambda>x. k x = c) (sort_reverse k xs) = filter (\<lambda>x. k x = c) xs"
  by (simp add: sort_reverse_def rev_filter[symmetric] sort_key_stable)

lemma sorted_desc_unique:
  fixes k :: "'a \<Rightarrow> int"
  assumes "sorted_wrt (\<lambda>a b. k b \<le> k a) xs" "sorted_wrt (\<lambda>a b. k b \<le> k a) ys"
    and "mset xs = mset ys" and "inj_on k (set ys)" and "distinct ys"
  shows "xs = ys"
proof -
  have set_eq: "set xs = set ys" using assms(3) by (rule mset_eq_setD)
  have dx: "distinct xs" using assms(3,5) by (metis mset_eq_imp_distinct_iff)
  have sx: "sorted (rev (map k xs))" using assms(1)
    by (simp add: sorted_wrt_rev sorted_wrt_map rev_map[symmetric])
  have sy: "sorted (rev (map k ys))" using assms(2)
    by (simp add: sorted_wrt_rev sorted_wrt_map rev_map[symmetric])
  have "distinct (rev (map k xs))" "distinct (rev (map k ys))"
    using dx assms(4,5) set_eq by (simp_all add: distinct_map)
  moreover have "set (rev (map k xs)) = set (rev (map k ys))" using set_eq by simp
  ultimately have "rev (map k xs) = rev (map k ys)"
    using sx sy by (intro sorted_distinct_set_unique)
  then have "map k xs = map k ys" by simp
  then show ?thesis using assms(4) set_eq
    by (simp add: inj_on_map_eq_map)
qed

lemma ex_keys:
  "collect_key ex_nav = 10" "collect_key ex_create = 9" "collect_key ex_action = 8"
  "collect_key ex_delete = 7"
  by (simp_all add: collect_key_def ex_nav_def ex_create_def ex_action_def ex_delete_def)

lemma ex_action_neq_delete: "ex_action \<noteq> ex_delete"
  by (simp add: ex_action_def ex_delete_def)

text \<open>
  Claim C1, as the code has it. The sort that ends \<open>_analyze_and_collect_items\<close> leaves
  \<open>pending_items\<close> in descending order of the key \<open>collect_key\<close> (10 for a nav item,
  otherwise 9 for \<open>crud_type\<close> create, 8 for read or update, 7 for delete, and the raw
  priority for every other item), keeps the items, and keeps the insertion order of
  items with equal keys. The raw priority of an item that is neither nav nor CRUD
  competes with these numbers: in whatever order the four example items were inserted,
  the result is nav, crud/create, the action of priority 8, crud/delete.
\<close>

theorem sort_after_collect_order:
  "sorted_wrt (\<lambda>a b. collect_key b \<le> collect_key a) (sort_after_collect pending_items) \<and>
   mset (sort_after_collect pending_items) = mset pending_items \<and>
   (\<forall>c. filter (\<lambda>x. collect_key x = c) (sort_after_collect pending_items) =
        filter (\<lambda>x. collect_key x = c) pending_items) \<and>
   (mset pending_items = mset [ex_action, ex_nav, ex_delete, ex_create] \<longrightarrow>
      sort_after_collect pending_items = [ex_nav, ex_create, ex_action, ex_delete])"
proof (intro conjI allI impI)
  show "sorted_wrt (\<lambda>a b. collect_key b \<le> collect_key a) (sort_after_collect pending_items)"
    unfolding sort_after_collect_def by (rule sorted_sort_reverse)
  show "mset (sort_after_collect pending_items) = mset pending_items"
    unfolding sort_after_collect_def by (rule mset_sort_reverse)
  show "filter (\<lambda>x. collect_key x = c) (sort_after_collect pending_items) =
        filter (\<lambda>x. collect_key x = c) pending_items" for c
    unfolding sort_after_collect_def by (rule stable_sort_reverse)
  assume m: "mset pending_items = mset [ex_action, ex_nav, ex_delete, ex_create]"
  let ?ys = "[ex_nav, ex_create, ex_action, ex_delete]"
  have neq: "distinct (map collect_key ?ys)" by (simp add: ex_keys)
  have "mset (sort_after_collect pending_items) = mset ?ys"
    unfolding sort_after_collect_def using m by (simp add: mset_sort_reverse)
  moreover have "sorted_wrt (\<lambda>a b. collect_key b \<le> collect_key a) ?ys" by (simp add: ex_keys)
  moreover have "inj_on collect_key (set ?ys)" "distinct ?ys"
    using neq by (simp_all only: distinct_map)
  ultimately show "sort_after_collect pending_items = ?ys"
    using sorted_sort_reverse[of collect_key pending_items]
    unfolding sort_after_collect_def by (intro sorted_desc_unique)
qed

theorem sort_after_collect_order_witness:
  "sort_after_collect [ex_create, ex_delete, ex_action, ex_nav] =
     [ex_nav, ex_create, ex_action, ex_delete]"
  using sort_after_collect_order[of "[ex_create, ex_delete, ex_action, ex_nav]"]
  by simp

text \<open>
  The claim as stated fails on its own example: the action of priority 8 is placed
  before the delete item, whose key is 7.
\<close>

theorem sort_after_collect_example_order:
  "sort_after_collect [ex_action, ex_nav, ex_delete, ex_create] \<noteq>
     [ex_nav, ex_create, ex_delete, ex_action]"
  by (simp add: sort_after_collect_def sort_reverse_def ex_keys ex_action_neq_delete)

text \<open>
  The sort after a click orders by raw priority alone: applied to the list above it
  puts the delete item first and the nav item last.
\<close>

lemma sort_after_click_example:
  "sort_after_click [ex_nav, ex_create, ex_action, ex_delete] =
     [ex_delete, ex_action, ex_create, ex_nav]"
  by (simp add: sort_after_click_def sort_reverse_def ex_nav_def ex_create_def ex_action_def
        ex_delete_def)

section \<open>Properties of the parsing of model responses\<close>

lemma search_braces_SomeD:
  assumes "search_braces response = Some m"
  shows "\<exists>pre body post. response = pre @ m @ post \<and> m = CHR ''{'' # body @ [CHR ''}''] \<and>
           CHR ''{'' \<notin> set pre \<and> CHR ''}'' \<notin> set post"
proof -
  let ?open = "\<lambda>c. c \<noteq> CHR ''{''" and ?close = "\<lambda>c. c \<noteq> CHR ''}''"
  define from_open where "from_open = dropWhile ?open response"
  define pre where "pre = takeWhile ?open response"
  define post where "post = rev (takeWhile ?close (rev from_open))"
  from assms have ite: "(if rev (dropWhile ?close (rev from_open)) = [] then None
       else Some (rev (dropWhile ?close (rev from_open)))) = Some m"
    by (simp only: search_braces_def Let_def from_open_def)
  then have m: "m = rev (dropWhile ?close (rev from_open))" "m \<noteq> []"
    by (metis option.distinct(1) option.inject)+
  have resp: "response = pre @ from_open"
    by (simp add: pre_def from_open_def)
  have "rev from_open = takeWhile ?close (rev from_open) @ dropWhile ?close (rev from_open)"
    by simp
  then have "rev (rev from_open) =
      rev (dropWhile ?close (rev from_open)) @ rev (takeWhile ?close (rev from_open))"
    by (simp only: rev_append[symmetric])
  then have fo: "from_open = m @ post"
    by (simp only: rev_rev_ident m(1) post_def)
  have pre_no: "CHR ''{'' \<notin> set pre"
    unfolding pre_def using set_takeWhileD by fastforce
  have post_no: "CHR ''}'' \<notin> set post"
    unfolding post_def using set_takeWhileD by fastforce
  have "dropWhile ?open response \<noteq> []" using m(2) fo by (simp add: from_open_def)
  then have "\<not> ?open (hd (dropWhile ?open response))" by (rule hd_dropWhile)
  then have hd_fo: "hd from_open = CHR ''{''" by (simp add: from_open_def)
  obtain c cs where mc: "m = c # cs" using m(2) by (cases m) simp_all
  from hd_fo fo mc have c: "c = CHR ''{''" by simp
  have "dropWhile ?close (rev from_open) \<noteq> []" using m by simp
  then have "\<not> ?close (hd (dropWhile ?close (rev from_open)))" by (rule hd_dropWhile)
  then have "hd (rev m) = CHR ''}''" by (simp add: m(1))
  then have last_m: "last m = CHR ''}''" using m(2) by (simp add: hd_rev)
  have cs_ne: "cs \<noteq> []"
  proof
    assume "cs = []"
    with mc c last_m show False by simp
  qed
  then have "last cs = CHR ''}''" using last_m mc by simp
  with cs_ne have "cs = butlast cs @ [CHR ''}'']"
    by (metis append_butlast_last_id)
  then have shape: "m = CHR ''{'' # butlast cs @ [CHR ''}'']" using mc c by simp
  have "response = pre @ m @ post" using resp fo by simp
  with shape pre_no post_no show ?thesis by blast
qed

lemma search_braces_SomeI:
  assumes "response = pre @ m @ post" "m = CHR ''{'' # body @ [CHR ''}'']"
    "CHR ''{'' \<notin> set pre" "CHR ''}'' \<notin> set post"
  shows "search_braces response = Some m"
proof -
  let ?open = "\<lambda>c. c \<noteq> CHR ''{''" and ?close = "\<lambda>c. c \<noteq> CHR ''}''"
  have "\<forall>x\<in>set pre. ?open x" using assms(3) by auto
  then have "dropWhile ?open (pre @ m @ post) = dropWhile ?open (m @ post)"
    by (simp add: dropWhile_append2)
  also have "\<dots> = m @ post" by (simp add: assms(2))
  finally have d1: "dropWhile ?open response = m @ post" by (simp only: assms(1))
  have "dropWhile ?close (rev post @ rev m) = dropWhile ?close (rev m)"
    by (rule dropWhile_append2) (use assms(4) in auto)
  also have "\<dots> = rev m" by (simp add: assms(2))
  finally have d2: "dropWhile ?close (rev (m @ post)) = rev m" by (simp only: rev_append)
  have m_ne: "m \<noteq> []" by (simp add: assms(2))
  have "search_braces response = (if m = [] then None else Some m)"
    by (simp only: search_braces_def Let_def d1 d2 rev_rev_ident)
  with m_ne show ?thesis by simp
qed

text \<open>
  Claim C8, as the code has it. For every response string of the model, \<open>analyze_page\<close>
  and \<open>plan_task\<close> take the text from the first \<open>{\<close> of the response through its last
  \<open>}\<close> (the greedy match of the pattern) and hand it to the JSON parser. When the
  response is empty or has no such text, or the parser rejects the text, \<open>analyze_page\<close>
  returns its default record (\<open>page_type\<close> unknown, empty feature and element lists) and
  \<open>plan_task\<close> returns the cannot-plan result (\<open>can_plan\<close> false, \<open>confidence\<close> 0.0);
  in every case a value is returned and nothing is raised.
\<close>

theorem parse_model_response:
  "(search_braces response = Some m \<longleftrightarrow>
      (\<exists>pre body post. response = pre @ m @ post \<and> m = CHR ''{'' # body @ [CHR ''}''] \<and>
          CHR ''{'' \<notin> set pre \<and> CHR ''}'' \<notin> set post)) \<and>
   analyze_page json_loads (Inr response) =
     Inr (case search_braces response of
            None \<Rightarrow> analyze_page_default
          | Some matched \<Rightarrow>
              (case json_loads matched of None \<Rightarrow> analyze_page_default | Some v \<Rightarrow> v)) \<and>
   plan_task json_loads (Inr response) =
     Inr (case search_braces response of
            None \<Rightarrow> plan_task_default
          | Some matched \<Rightarrow>
              (case json_loads matched of None \<Rightarrow> plan_task_default | Some v \<Rightarrow> v)) \<and>
   dict_get analyze_page_default ''page_type'' JNull = Inr (JStr ''unknown'') \<and>
   dict_get analyze_page_default ''key_features'' JNull = Inr (JArr []) \<and>
   dict_get analyze_page_default ''important_elements'' JNull = Inr (JArr []) \<and>
   dict_get plan_task_default ''can_plan'' JNull = Inr (JBool False) \<and>
   dict_get plan_task_default ''confidence'' JNull = Inr (JNum 0)"
proof (intro conjI)
  show "search_braces response = Some m \<longleftrightarrow>
      (\<exists>pre body post. response = pre @ m @ post \<and> m = CHR ''{'' # body @ [CHR ''}''] \<and>
          CHR ''{'' \<notin> set pre \<and> CHR ''}'' \<notin> set post)"
    using search_braces_SomeD search_braces_SomeI by blast
  have empty: "search_braces [] = None" by (simp add: search_braces_def)
  show "analyze_page json_loads (Inr response) =
     Inr (case search_braces response of
            None \<Rightarrow> analyze_page_default
          | Some matched \<Rightarrow>
              (case json_loads matched of None \<Rightarrow> analyze_page_default | Some v \<Rightarrow> v))"
    by (cases "response = []")
       (auto simp: analyze_page_def try_parse_def with_default_def empty split: option.splits)
  show "plan_task json_loads (Inr response) =
     Inr (case search_braces response of
            None \<Rightarrow> plan_task_default
          | Some matched \<Rightarrow>
              (case json_loads matched of None \<Rightarrow> plan_task_default | Some v \<Rightarrow> v))"
    by (cases "response = []")
       (auto simp: plan_task_def try_parse_def with_default_def empty split: option.splits)
qed (simp_all add: dict_get_def analyze_page_default_def plan_task_default_def)

theorem parse_model_response_witness:
  "search_braces ''Sure. {} Done.'' = Some ''{}'' \<and>
   plan_task (\<lambda>s. None) (Inr ''Sure. {} Done.'') = Inr plan_task_default \<and>
   analyze_page loads_empty_object (Inr ''Sure. {} Done.'') = Inr (JObj [])"
proof -
  have m: "search_braces ''Sure. {} Done.'' = Some ''{}''"
    using parse_model_response[of "''Sure. {} Done.''" "''{}''"]
    by (simp add: search_braces_def)
  show ?thesis
    using parse_model_response[of "''Sure. {} Done.''" "''{}''" "\<lambda>s. None"]
      parse_model_response[of "''Sure. {} Done.''" "''{}''" loads_empty_object]
    by (simp add: m loads_empty_object_def)
qed

text \<open>
  The claim as stated fails: on a response with two brace blocks the text handed to
  the parser runs from the first \<open>{\<close> to the last \<open>}\<close>, which is not the first
  balanced block; a parser that accepts the first block \<open>{}\<close> rejects that text, and
  the planner returns its default.
\<close>

theorem search_braces_not_first_balanced:
  "search_braces ''Plan: {} (or else {})'' = Some ''{} (or else {}'' \<and>
   spec_first_balanced_block ''Plan: {} (or else {})'' = Some ''{}'' \<and>
   search_braces ''Plan: {} (or else {})'' \<noteq> spec_first_balanced_block ''Plan: {} (or else {})'' \<and>
   plan_task loads_empty_object (Inr ''Plan: {} (or else {})'') = Inr plan_task_default"
  by (simp add: search_braces_def spec_first_balanced_block_def plan_task_def try_parse_def
        with_default_def loads_empty_object_def)

text \<open>An exception outside the class \<open>Exception\<close> raised by the call of the model is not caught.\<close>

lemma analyze_page_propagates:
  "analyze_page json_loads (Inl BaseExceptionOnly) = Inl BaseExceptionOnly"
  by (simp add: analyze_page_def try_parse_def with_default_def)

section \<open>Properties of the choice of the execution mode\<close>

lemma float_facts:
  "\<not> float_0_6 < float_0_55" "float_0_6 < float_0_61" "\<not> float_0_6 < float_0_6"
  by (simp_all add: float_0_55_def float_0_6_def float_0_61_def)

lemma print_steps_ok: "\<forall>s\<in>set steps. print_step s = None \<Longrightarrow> print_steps steps = None"
  by (induction steps) simp_all

text \<open>
  On a plan whose steps all carry the keys \<open>step\<close> and \<open>action_detail\<close>, with a boolean
  \<open>can_plan\<close> and a numeric \<open>confidence\<close>, the planned execution is chosen exactly when
  memory is available, \<open>can_plan\<close> is true and the confidence is strictly greater than
  the float \<open>0.6\<close>; otherwise the live execution is.
\<close>

lemma execute_task_mode_threshold:
  assumes "map_of plan ''can_plan'' = Some (JBool can_plan)"
    and "map_of plan ''confidence'' = Some (JNum confidence)"
    and "map_of plan ''plan'' = Some (JArr steps)"
    and "\<forall>s\<in>set steps. print_step s = None"
  shows "execute_task_mode True memory (JObj plan) =
           Inr (if memory \<and> can_plan \<and> float_0_6 < confidence then PLANNED else LIVE)"
  using assms print_steps_ok[OF assms(4)]
  by (simp add: execute_task_mode_def dict_get_def print_plan_def)

text \<open>
  The scenario: with \<open>can_plan\<close> true and a step as the prompt asks for it, the
  confidences 0.55 and 0.6 lead to live execution and 0.61 to planned execution.
\<close>

lemma execute_task_mode_scenario:
  "execute_task_mode True True (scenario_plan float_0_55) = Inr LIVE"
  "execute_task_mode True True (scenario_plan float_0_6) = Inr LIVE"
  "execute_task_mode True True (scenario_plan float_0_61) = Inr PLANNED"
  by (simp_all add: execute_task_mode_def dict_get_def print_plan_def scenario_plan_def
        plan_with_def full_step_def float_facts)

text \<open>
  Claim C7. The claim does not hold on the code for every plan: a plan with \<open>can_plan\<close>
  true and confidence 0.61 whose only step has no \<open>action_detail\<close> passes the test, and
  the printing of its steps raises \<open>KeyError\<close> before the planned execution is called;
  neither mode runs. With the key in place the same plan is executed as planned.
\<close>

theorem execute_task_step_without_detail:
  "float_0_6 < float_0_61 \<and>
   execute_task_mode True True (plan_with float_0_61 [step_without_detail]) = Inl KeyError \<and>
   execute_task_mode True True (plan_with float_0_61 [full_step]) = Inr PLANNED"
  by (simp add: execute_task_mode_def dict_get_def print_plan_def plan_with_def
        step_without_detail_def full_step_def float_facts)

section \<open>Properties of the action executor\<close>

lemma ci_search_sublist:
  "re_search (\<lambda>s. if ci_prefix lit s then Some () else None) a \<noteq> None \<longleftrightarrow>
     sublist (py_lower lit) (py_lower a)"
  by (induction a) (simp_all add: ci_prefix_def py_lower_def sublist_Cons_right)

lemma done_search_sublist: "done_search a \<longleftrightarrow> sublist ''done'' (py_lower a)"
proof -
  have "py_lower ''DONE'' = ''done''" by (simp add: py_lower_def lower_char_def)
  then show ?thesis unfolding done_search_def ci_search_sublist by simp
qed

lemma sublist_skip_left:
  "sublist w (xs @ ys) \<Longrightarrow> set xs \<inter> set w = {} \<Longrightarrow> w \<noteq> [] \<Longrightarrow> sublist w ys"
proof (induction xs)
  case Nil
  then show ?case by simp
next
  case (Cons x xs)
  from Cons.prems(2) have x: "x \<notin> set w" and xs: "set xs \<inter> set w = {}" by auto
  from Cons.prems(1) have "prefix w (x # xs @ ys) \<or> sublist w (xs @ ys)"
    by (simp add: sublist_Cons_right)
  moreover have "\<not> prefix w (x # xs @ ys)"
  proof
    assume p: "prefix w (x # xs @ ys)"
    obtain v vs where w: "w = v # vs" using Cons.prems(3) by (cases w) simp_all
    with p have "v = x" by simp
    with w x show False by simp
  qed
  ultimately have "sublist w (xs @ ys)" by blast
  then show ?case using Cons.IH xs Cons.prems(3) by blast
qed

lemma sublist_skip_right:
  assumes "sublist w (ys @ zs)" "set zs \<inter> set w = {}" "w \<noteq> []"
  shows "sublist w ys"
proof -
  have "sublist (rev w) (rev (ys @ zs))" using assms(1) by (simp only: sublist_rev)
  then have "sublist (rev w) (rev zs @ rev ys)" by (simp only: rev_append)
  moreover have "set (rev zs) \<inter> set (rev w) = {}" using assms(2) by simp
  moreover have "rev w \<noteq> []" using assms(3) by simp
  ultimately have "sublist (rev w) (rev ys)" by (rule sublist_skip_left)
  then show ?thesis by (simp only: sublist_rev)
qed

lemma space_lower: "is_space c \<Longrightarrow> lower_char c = c"
  unfolding is_space_def by (elim disjE | simp add: lower_char_def)+


lemma space_not_done: "is_space c \<Longrightarrow> c \<notin> set ''done''"
  by (auto simp: is_space_def)

lemma strip_decompose:
  "\<exists>l r. a = l @ py_strip a @ r \<and> (\<forall>c\<in>set l. is_space c) \<and> (\<forall>c\<in>set r. is_space c)"
proof -
  define d where "d = dropWhile is_space a"
  define l where "l = takeWhile is_space a"
  define r where "r = rev (takeWhile is_space (rev d))"
  define m where "m = rev (dropWhile is_space (rev d))"
  have ald: "a = l @ d" by (simp add: l_def d_def)
  have "rev d = takeWhile is_space (rev d) @ dropWhile is_space (rev d)" by simp
  then have "rev (rev d) = rev (dropWhile is_space (rev d)) @ rev (takeWhile is_space (rev d))"
    by (simp only: rev_append[symmetric])
  then have dmr: "d = m @ r" by (simp only: rev_rev_ident m_def r_def)
  have m: "m = py_strip a" by (simp add: m_def d_def py_strip_def)
  have "l @ d = l @ py_strip a @ r" using dmr m by simp
  with ald have "a = l @ py_strip a @ r" by (rule trans)
  moreover have "\<forall>c\<in>set l. is_space c"
    unfolding l_def using set_takeWhileD by fastforce
  moreover have "\<forall>c\<in>set r. is_space c"
    unfolding r_def using set_takeWhileD by fastforce
  ultimately show ?thesis by blast
qed

lemma lower_spaces_not_done:
  assumes "\<forall>c\<in>set l. is_space c"
  shows "set (py_lower l) \<inter> set ''done'' = {}"
proof -
  have "py_lower l = l"
    unfolding py_lower_def using assms by (simp add: map_idI space_lower)
  moreover have "\<forall>c\<in>set l. c \<notin> set ''done''" using assms space_not_done by blast
  ultimately show ?thesis by (simp only: disjoint_iff) blast
qed

lemma done_strip: "sublist ''done'' (py_lower (py_strip a)) \<longleftrightarrow> sublist ''done'' (py_lower a)"
proof -
  obtain l r where lr: "a = l @ py_strip a @ r" "\<forall>c\<in>set l. is_space c" "\<forall>c\<in>set r. is_space c"
    using strip_decompose by blast
  have "py_lower a = py_lower (l @ py_strip a @ r)" using lr(1) by (rule arg_cong)
  then have low: "py_lower a = py_lower l @ py_lower (py_strip a) @ py_lower r"
    by (simp only: py_lower_def map_append)
  have l: "set (py_lower l) \<inter> set ''done'' = {}" using lr(2) by (rule lower_spaces_not_done)
  have r: "set (py_lower r) \<inter> set ''done'' = {}" using lr(3) by (rule lower_spaces_not_done)
  show ?thesis
  proof
    assume "sublist ''done'' (py_lower (py_strip a))"
    then obtain ps ss where "py_lower (py_strip a) = ps @ ''done'' @ ss"
      unfolding sublist_def by blast
    then have "py_lower a = (py_lower l @ ps) @ ''done'' @ (ss @ py_lower r)"
      using low by simp
    then show "sublist ''done'' (py_lower a)"
      unfolding sublist_def by blast
  next
    assume "sublist ''done'' (py_lower a)"
    then have "sublist ''done'' (py_lower l @ (py_lower (py_strip a) @ py_lower r))"
      by (simp only: low)
    then have "sublist ''done'' (py_lower (py_strip a) @ py_lower r)"
      using l by (rule sublist_skip_left) simp
    then show "sublist ''done'' (py_lower (py_strip a))"
      using r by (rule sublist_skip_right) simp
  qed
qed

lemma helpers_not_done:
  "fst (click br tag_id tags) = False"
  "fst (type_text br tag_id txt tags) = False"
  "fst (scroll br d) = False"
  "fst (goto br url) = False"
  by (simp_all add: click_def type_text_def scroll_def goto_def Let_def split: option.split)

lemma execute_when_done:
  "sublist ''done'' (py_lower action) \<Longrightarrow> execute br action tags = (True, TaskDone, [])"
  by (simp add: execute_def Let_def done_search_sublist done_strip)

lemma execute_when_not_done:
  assumes "\<not> sublist ''done'' (py_lower action)"
  shows "fst (execute br action tags) = False"
proof -
  have "\<not> done_search (py_strip action)"
    using assms by (simp add: done_search_sublist done_strip)
  then show ?thesis
    by (simp add: execute_def Let_def helpers_not_done split: option.split prod.split)
qed


lemma done_examples:
  "sublist ''done'' (py_lower ''CLICK [3] DONE'')"
  "sublist ''done'' (py_lower ''DONE'')"
  "\<not> sublist ''done'' (py_lower ''CLICK [3]'')"
  "\<not> sublist ''done'' (py_lower ''SCROLL DOWN'')"
  unfolding done_search_sublist[symmetric]
  by (simp_all add: done_search_def ci_prefix_def py_lower_def lower_char_def)

text \<open>
  Claim C10. For every action string, \<open>execute\<close> returns \<open>done = true\<close> exactly when the
  string contains \<open>DONE\<close> in any mix of upper and lower case. The \<open>DONE\<close> pattern is tried
  first: such a string returns the completion result and performs no browser call, no
  wait and no pause, whatever other command it contains (as \<open>CLICK [3] DONE\<close> does), and
  every other result (wait, pause, click, type, scroll, goto, unparseable) has
  \<open>done = false\<close>.
\<close>

theorem execute_done_iff:
  "(fst (execute br action tag_to_xpath) \<longleftrightarrow> sublist ''done'' (py_lower action)) \<and>
   (sublist ''done'' (py_lower action) \<longrightarrow> execute br action tag_to_xpath = (True, TaskDone, [])) \<and>
   execute br ''CLICK [3] DONE'' tag_to_xpath = (True, TaskDone, [])"
proof (intro conjI impI)
  show "fst (execute br action tag_to_xpath) \<longleftrightarrow> sublist ''done'' (py_lower action)"
    using execute_when_done[of action br tag_to_xpath]
      execute_when_not_done[of action br tag_to_xpath]
    by (cases "sublist ''done'' (py_lower action)") simp_all
  show "execute br ''CLICK [3] DONE'' tag_to_xpath = (True, TaskDone, [])"
    using done_examples(1) by (rule execute_when_done)
qed (rule execute_when_done)

theorem execute_done_iff_witness:
  "execute ex_browser ''CLICK [3] DONE'' (Map.empty(3 \<mapsto> ''//a'')) = (True, TaskDone, []) \<and>
   \<not> fst (execute ex_browser ''CLICK [3]'' (Map.empty(3 \<mapsto> ''//a'')))"
  using execute_done_iff[of ex_browser "''CLICK [3] DONE''" "Map.empty(3 \<mapsto> ''//a'')"]
    execute_done_iff[of ex_browser "''CLICK [3]''" "Map.empty(3 \<mapsto> ''//a'')"]
  by (simp add: done_examples)

section \<open>Properties of the live execution loop\<close>










end
